theory Spec2Isabelle
  imports Complex_Main "HOL-Library.Sublist"
begin

section \<open>Resilient fetch: \<open>safeFetch\<close> of ProductionStudio.tsx\<close>

text \<open>
  The environment of one \<open>safeFetch\<close> call is what the browser hands back: the outcome of
  the \<open>fetch\<close> issued in attempt \<open>k\<close> (a response, or a thrown value; the abort fired by the
  timeout timer surfaces as a thrown value named \<open>AbortError\<close>) and the number that
  \<open>Math.random()\<close> returns in attempt \<open>k\<close>. \<open>retries\<close> is the integer count that the call
  sites pass (0, 1 or the default 2); delays are integers of milliseconds.
\<close>

record js_error =
  err_name :: string
  err_message :: string

record 'b response =
  status :: int
  body :: 'b

datatype 'b fetch_outcome = Responds "'b response" | Throws js_error

record retryCfg =
  cfg_retries :: "int option"
  cfg_retryDelayBaseMs :: "int option"

datatype exit_site = ReturnResp | CatchThrow | PostLoopThrow

record 'b fetch_run =
  result :: "js_error + 'b response"
  site :: exit_site
  attempts :: nat
  waits :: "int list"

definition DEFAULT_RETRIES :: int where
  "DEFAULT_RETRIES = 2"

definition retry_statuses :: "int list" where
  "retry_statuses = [429, 502, 503, 504]"

definition timeout_error :: js_error where
  "timeout_error = \<lparr>err_name = ''Error'', err_message = ''Tempo limite atingido. Tente novamente.''\<rparr>"

definition unexpected_error :: js_error where
  "unexpected_error = \<lparr>err_name = ''Error'', err_message = ''Falha de rede inesperada''\<rparr>"

text \<open>\<open>Math.floor(Math.random() * 250)\<close>, for the value \<open>r\<close> that \<open>Math.random()\<close> returned.\<close>

definition jitter :: "rat \<Rightarrow> int" where
  "jitter r = \<lfloor>r * 250\<rfloor>"

text \<open>\<open>retryDelayBaseMs * Math.pow(2, attempt)\<close>: the delay without its jitter.\<close>

definition backoff_base :: "int \<Rightarrow> nat \<Rightarrow> int" where
  "backoff_base retryDelayBaseMs attempt = retryDelayBaseMs * 2 ^ attempt"

definition backoff :: "int \<Rightarrow> nat \<Rightarrow> rat \<Rightarrow> int" where
  "backoff retryDelayBaseMs attempt r = backoff_base retryDelayBaseMs attempt + jitter r"

text \<open>
  The \<open>for (attempt = 0; attempt <= retries; attempt++)\<close> loop. \<open>ws\<close> collects the delays
  slept so far; the run records where the call left the function, the number of \<open>fetch\<close>
  calls made and the delays.
\<close>

function safeFetch_loop ::
  "(nat \<Rightarrow> 'b fetch_outcome) \<Rightarrow> (nat \<Rightarrow> rat) \<Rightarrow> int \<Rightarrow> int \<Rightarrow> nat \<Rightarrow> int list \<Rightarrow> 'b fetch_run"
where
  "safeFetch_loop fetch random retries retryDelayBaseMs attempt ws =
     (if int attempt \<le> retries then
        (case fetch attempt of
           Responds resp \<Rightarrow>
             if status resp \<in> set retry_statuses \<and> int attempt < retries then
               safeFetch_loop fetch random retries retryDelayBaseMs (Suc attempt)
                 (ws @ [backoff retryDelayBaseMs attempt (random attempt)])
             else
               \<lparr>result = Inr resp, site = ReturnResp, attempts = Suc attempt, waits = ws\<rparr>
         | Throws err \<Rightarrow>
             if int attempt < retries then
               safeFetch_loop fetch random retries retryDelayBaseMs (Suc attempt)
                 (ws @ [backoff retryDelayBaseMs attempt (random attempt)])
             else
               \<lparr>result = Inl (if err_name err = ''AbortError'' then timeout_error else err),
                site = CatchThrow, attempts = Suc attempt, waits = ws\<rparr>)
      else
        \<lparr>result = Inl unexpected_error, site = PostLoopThrow, attempts = attempt, waits = ws\<rparr>)"
  by pat_completeness auto
termination
  by (relation "measure (\<lambda>(fetch, random, retries, retryDelayBaseMs, attempt, ws).
        nat (retries + 1 - int attempt))") auto

declare safeFetch_loop.simps [simp del]

definition safeFetch :: "(nat \<Rightarrow> 'b fetch_outcome) \<Rightarrow> (nat \<Rightarrow> rat) \<Rightarrow> retryCfg \<Rightarrow> 'b fetch_run" where
  "safeFetch fetch random retryCfg =
     safeFetch_loop fetch random
       (case cfg_retries retryCfg of None \<Rightarrow> DEFAULT_RETRIES | Some n \<Rightarrow> n)
       (case cfg_retryDelayBaseMs retryCfg of None \<Rightarrow> 800 | Some d \<Rightarrow> d)
       0 []"

section \<open>URL builder: \<open>buildApiUrl\<close> of ProductionStudio.tsx and \<open>ApiService\<close> of services/api.ts\<close>

text \<open>
  A \<open>string\<close> stands for a JavaScript string whose code units are below 256, one \<open>char\<close>
  per code unit. \<open>startsWith\<close> and \<open>endsWith\<close> are the methods of \<open>String.prototype\<close>.
\<close>

definition startsWith :: "string \<Rightarrow> string \<Rightarrow> bool" where
  "startsWith s p = prefix p s"

definition endsWith :: "string \<Rightarrow> string \<Rightarrow> bool" where
  "endsWith s p = suffix p s"

text \<open>\<open>process.env.REACT_APP_API_URL || 'https://topatudoeletrofacil.com.br/api'\<close>\<close>

definition API_BASE_URL :: "string option \<Rightarrow> string" where
  "API_BASE_URL env =
     (case env of
        None \<Rightarrow> ''https://topatudoeletrofacil.com.br/api''
      | Some u \<Rightarrow> if u = [] then ''https://topatudoeletrofacil.com.br/api'' else u)"

definition buildApiUrl :: "string \<Rightarrow> string \<Rightarrow> string" where
  "buildApiUrl base endpoint =
     (let finalEndpoint = (if startsWith endpoint ''/'' then endpoint else ''/'' @ endpoint)
      in if endsWith base ''/api'' then base @ finalEndpoint
         else base @ ''/api'' @ finalEndpoint)"

text \<open>The constructor of \<open>ApiService\<close>: \<open>baseUrl\<close> is the base without one trailing slash.\<close>

definition ApiService_baseUrl :: "string \<Rightarrow> string" where
  "ApiService_baseUrl base = (if endsWith base ''/'' then butlast base else base)"

text \<open>The URL that \<open>ApiService.request\<close> fetches.\<close>

definition ApiService_request_url :: "string \<Rightarrow> string \<Rightarrow> string" where
  "ApiService_request_url base endpoint =
     (let baseUrl = ApiService_baseUrl base;
          finalEndpoint = (if startsWith endpoint ''/'' then endpoint else ''/'' @ endpoint)
      in if endsWith baseUrl ''/api'' then baseUrl @ finalEndpoint
         else baseUrl @ ''/api'' @ finalEndpoint)"

text \<open>The number of positions of \<open>s\<close> at which the text \<open>p\<close> starts.\<close>

fun count_occ :: "string \<Rightarrow> string \<Rightarrow> nat" where
  "count_occ p [] = 0"
| "count_occ p (c # cs) = (if prefix p (c # cs) then 1 else 0) + count_occ p cs"

section \<open>Job polling loop of \<open>handleCompleteVideoRender\<close>\<close>











section \<open>Wizard state machine of \<open>ProductionStudio\<close>\<close>

text \<open>
  The configuration aggregate is a JavaScript object: a map from field names to values, an
  absent key being \<open>undefined\<close>. The values it holds are JSON values.
\<close>

datatype json =
  JNull | JBool bool | JNum rat | JStr string | JArr "json list" | JObj "(string \<times> json) list"

type_synonym ContentSettings = "string \<rightharpoonup> json"

text \<open>The truthiness of a value that may be \<open>undefined\<close>.\<close>

fun truthy :: "json option \<Rightarrow> bool" where
  "truthy None = False"
| "truthy (Some JNull) = False"
| "truthy (Some (JBool b)) = b"
| "truthy (Some (JNum x)) = (x \<noteq> 0)"
| "truthy (Some (JStr s)) = (s \<noteq> [])"
| "truthy (Some (JArr xs)) = True"
| "truthy (Some (JObj kvs)) = True"

text \<open>
  \<open>String.prototype.trim\<close> on code units below 256: the white space and line terminators
  there are the code units 9 to 13, 32 and 160.
\<close>

definition is_ws :: "char \<Rightarrow> bool" where
  "is_ws c = (let n = (of_char c :: nat) in (9 \<le> n \<and> n \<le> 13) \<or> n = 32 \<or> n = 160)"

definition trim :: "string \<Rightarrow> string" where
  "trim s = rev (dropWhile is_ws (rev (dropWhile is_ws s)))"

record wizard =
  currentStep :: int
  stepCompleted :: "bool list"
  generatedImages :: "json list"
  videoPreview :: "string option"

text \<open>
  Reading and writing \<open>stepCompleted[i]\<close>. A read out of range is \<open>undefined\<close>, which every
  reader of the flags tests for truthiness. A write past the end extends the array, the
  holes reading as \<open>undefined\<close>; a write at a negative index sets a property that is no
  element.
\<close>

definition flag_at :: "bool list \<Rightarrow> int \<Rightarrow> bool" where
  "flag_at xs i = (0 \<le> i \<and> i < int (length xs) \<and> xs ! nat i)"

definition flag_set :: "bool list \<Rightarrow> int \<Rightarrow> bool list" where
  "flag_set xs i =
     (if i < 0 then xs
      else if i < int (length xs) then xs[nat i := True]
      else xs @ replicate (nat i - length xs) False @ [True])"

definition completeStep :: "wizard \<Rightarrow> int \<Rightarrow> wizard" where
  "completeStep st stepIndex =
     st\<lparr>stepCompleted := flag_set (stepCompleted st) (stepIndex - 1),
        currentStep := (if stepIndex < 6 then stepIndex + 1 else currentStep st)\<rparr>"

definition markStepAsCompleted :: "wizard \<Rightarrow> int \<Rightarrow> wizard" where
  "markStepAsCompleted st stepIndex =
     st\<lparr>stepCompleted := flag_set (stepCompleted st) (stepIndex - 1)\<rparr>"

definition isStepAccessible :: "wizard \<Rightarrow> int \<Rightarrow> bool" where
  "isStepAccessible st stepIndex = (stepIndex = 1 \<or> flag_at (stepCompleted st) (stepIndex - 2))"

definition goToStep :: "wizard \<Rightarrow> int \<Rightarrow> wizard" where
  "goToStep st stepIndex =
     (if stepIndex = 1 \<or> flag_at (stepCompleted st) (stepIndex - 2)
      then st\<lparr>currentStep := stepIndex\<rparr> else st)"

text \<open>
  The truthiness of what \<open>canCompleteCurrentStep\<close> returns. By the declared types,
  \<open>script\<close> is a string and \<open>target_platforms\<close> an array when they are present.
\<close>

definition canCompleteCurrentStep :: "ContentSettings \<Rightarrow> wizard \<Rightarrow> bool" where
  "canCompleteCurrentStep contentSettings st =
     (if currentStep st = 1 then
        (case contentSettings ''script'' of
           Some (JStr s) \<Rightarrow> s \<noteq> [] \<and> length (trim s) > 50
         | _ \<Rightarrow> False)
      else if currentStep st = 2 then
        truthy (contentSettings ''script'') \<and> truthy (contentSettings ''audio_file'')
      else if currentStep st = 3 then
        truthy (contentSettings ''visual_style'')
      else if currentStep st = 4 then
        truthy (contentSettings ''subtitle_style'') \<and> truthy (contentSettings ''transitions'')
      else if currentStep st = 5 then
        (case contentSettings ''target_platforms'' of
           Some (JArr xs) \<Rightarrow> length xs > 0
         | _ \<Rightarrow> False)
      else if currentStep st = 6 then True
      else False)"

text \<open>
  The button that advances: rendered while \<open>currentStep < 6\<close>, disabled unless
  \<open>canCompleteCurrentStep()\<close>, and calling \<open>completeStep(currentStep)\<close> when clicked.
\<close>

definition next_button_click :: "ContentSettings \<Rightarrow> wizard \<Rightarrow> wizard" where
  "next_button_click contentSettings st =
     (if currentStep st < 6 \<and> canCompleteCurrentStep contentSettings st
      then completeStep st (currentStep st) else st)"

text \<open>
  \<open>updateSettings(key, value)\<close> hands \<open>{...contentSettings, [key]: value}\<close> to
  \<open>onSettingsChange\<close>, where \<open>contentSettings\<close> is the aggregate of the render that created
  the callback; this is the value handed over. A key set to \<open>undefined\<close> reads as absent.
\<close>

definition updateSettings :: "ContentSettings \<Rightarrow> string \<Rightarrow> json option \<Rightarrow> ContentSettings" where
  "updateSettings contentSettings key v = contentSettings(key := v)"

text \<open>
  \<open>onSettingsChange\<close> is the \<open>useState\<close> setter of \<open>App\<close>, called with values: of the
  calls made before the next render the last one is the new state.
\<close>

definition setState_flush :: "'a \<Rightarrow> 'a list \<Rightarrow> 'a" where
  "setState_flush s calls = (if calls = [] then s else last calls)"

text \<open>What \<open>AudioSimpleStep\<close> passes to \<open>onSelectComplete\<close>.\<close>

record audio_result =
  res_audio_url :: string
  res_model :: "string option"
  res_voice_profile :: "string option"

text \<open>
  The \<open>onSelectComplete\<close> handler of stage 2, in a render whose aggregate is
  \<open>contentSettings\<close> and whose wizard state is \<open>st\<close>: the aggregate and the wizard state
  of the next render.
\<close>

definition onSelectComplete :: "ContentSettings \<Rightarrow> wizard \<Rightarrow> audio_result \<Rightarrow> ContentSettings \<times> wizard" where
  "onSelectComplete contentSettings st res =
     (if res_audio_url res \<noteq> [] then
        (setState_flush contentSettings
           ([updateSettings contentSettings ''audio_file'' (Some (JStr (res_audio_url res))),
             updateSettings contentSettings ''preview_audio_file'' None,
             updateSettings contentSettings ''last_audio_model''
               (Some (JStr (case res_model res of
                              None \<Rightarrow> ''google''
                            | Some m \<Rightarrow> if m = [] then ''google'' else m)))] @
            (if res_model res = Some ''elevenlabs'' \<and>
                res_voice_profile res \<noteq> None \<and> res_voice_profile res \<noteq> Some []
             then [updateSettings contentSettings ''elevenlabs_voice''
                     (Some (JStr (the (res_voice_profile res))))]
             else [])),
         completeStep st 2)
      else (contentSettings, st))"

section \<open>Snapshot persistence of \<open>ProductionStudio\<close>\<close>

definition persisted_keys :: "string list" where
  "persisted_keys =
     [''script'', ''visual_style'', ''image_provider'', ''visual_prompts_text'',
      ''leonardo_prompts_text'', ''generated_images'', ''audio_file'', ''preview_audio_file'',
      ''elevenlabs_voice'', ''scene_duration'', ''transitions'', ''subtitle_style'',
      ''leonardo_motion'', ''motion_strength'']"

text \<open>
  What \<open>JSON.parse\<close> reads back from the text that \<open>JSON.stringify(payload)\<close> wrote: a key
  of \<open>settings\<close> whose value is \<open>undefined\<close> is not written, and a \<open>null\<close> preview is
  written as \<open>null\<close>.
\<close>

definition persist_payload :: "ContentSettings \<Rightarrow> wizard \<Rightarrow> json" where
  "persist_payload contentSettings st =
     JObj [(''settings'',
              JObj (List.map_filter (\<lambda>k. map_option (Pair k) (contentSettings k)) persisted_keys)),
           (''generatedImages'', JArr (generatedImages st)),
           (''videoPreview'', (case videoPreview st of None \<Rightarrow> JNull | Some v \<Rightarrow> JStr v)),
           (''stepCompleted'', JArr (map JBool (stepCompleted st)))]"

text \<open>
  The stored item, parsed; \<open>None\<close> when there is none. \<open>setItem\<close> may throw (quota), which
  the effect swallows, leaving the item as it was.
\<close>

definition persist :: "bool \<Rightarrow> ContentSettings \<Rightarrow> wizard \<Rightarrow> json option \<Rightarrow> json option" where
  "persist setItem_ok contentSettings st storage =
     (if setItem_ok then Some (persist_payload contentSettings st) else storage)"

text \<open>Property access \<open>parsed.k\<close> for the four keys the effect reads.\<close>

fun get_prop :: "json \<Rightarrow> string \<Rightarrow> json option" where
  "get_prop (JObj kvs) k = map_of kvs k"
| "get_prop _ k = None"

fun show_nat :: "nat \<Rightarrow> string" where
  "show_nat n =
     (if n < 10 then [char_of (48 + n)] else show_nat (n div 10) @ [char_of (48 + n mod 10)])"

text \<open>
  The own enumerable properties that \<open>{...v}\<close> copies: those of an object, the indices of
  an array or of a string, none otherwise.
\<close>

fun spread :: "json option \<Rightarrow> (string \<rightharpoonup> json)" where
  "spread (Some (JObj kvs)) = map_of kvs"
| "spread (Some (JArr xs)) = map_of (zip (map show_nat [0..<length xs]) xs)"
| "spread (Some (JStr s)) = map_of (zip (map show_nat [0..<length s]) (map (\<lambda>c. JStr [c]) s))"
| "spread _ = Map.empty"

text \<open>
  The rehydration effect, run in a render whose aggregate is \<open>contentSettings\<close> and whose
  wizard state is \<open>st\<close>: the values it hands to \<open>onSettingsChange\<close> (one, or none), and
  the wizard state after its own setters. Reading \<open>parsed.settings\<close> of \<open>null\<close> throws,
  which the effect catches before it has changed anything.
\<close>

definition rehydrate :: "ContentSettings \<Rightarrow> wizard \<Rightarrow> json option \<Rightarrow> ContentSettings list \<times> wizard" where
  "rehydrate contentSettings st storage =
     (case storage of
        None \<Rightarrow> ([], st)
      | Some parsed \<Rightarrow>
          if parsed = JNull then ([], st)
          else
            let settings' = contentSettings ++ spread (get_prop parsed ''settings'');
                st1 = (case get_prop parsed ''generatedImages'' of
                         Some (JArr xs) \<Rightarrow> st\<lparr>generatedImages := xs\<rparr>
                       | _ \<Rightarrow> st);
                st2 = (case get_prop parsed ''videoPreview'' of
                         Some (JStr v) \<Rightarrow> st1\<lparr>videoPreview := Some v\<rparr>
                       | _ \<Rightarrow> st1);
                st3 = (case get_prop parsed ''stepCompleted'' of
                         Some (JArr xs) \<Rightarrow> st2\<lparr>stepCompleted := map (\<lambda>v. truthy (Some v)) xs\<rparr>
                       | _ \<Rightarrow> st2)
            in ([settings'], st3))"

text \<open>
  The effects of the first render of \<open>ProductionStudio\<close>, in the order of their
  declaration, each seeing the aggregate and the wizard state of that render: the
  rehydration effect; the persist effect, which writes the snapshot of that render; and the
  effect that sets the default \<open>voice_profile\<close> through \<open>updateSettings\<close> when the
  aggregate has none. The result is the aggregate and the wizard state of the next render
  and the stored item.
\<close>

definition mount_effects ::
  "bool \<Rightarrow> ContentSettings \<Rightarrow> wizard \<Rightarrow> json option \<Rightarrow> ContentSettings \<times> wizard \<times> json option"
where
  "mount_effects setItem_ok contentSettings st storage =
     (let (calls1, st') = rehydrate contentSettings st storage;
          storage' = persist setItem_ok contentSettings st storage;
          calls2 = (if truthy (contentSettings ''voice_profile'') then []
                    else [updateSettings contentSettings ''voice_profile''
                            (Some (JStr ''male-professional''))])
      in (setState_flush contentSettings (calls1 @ calls2), st', storage'))"

text \<open>The state of a fresh session: the initial values of the \<open>useState\<close> hooks.\<close>

definition initial_wizard :: wizard where
  "initial_wizard =
     \<lparr>currentStep = 1, stepCompleted = [False, False, False, False, False, False],
      generatedImages = [], videoPreview = None\<rparr>"

text \<open>The initial aggregate of \<open>App.tsx\<close> (\<open>audio_file: undefined\<close> is an absent key).\<close>

definition initial_contentSettings :: ContentSettings where
  "initial_contentSettings = map_of
     [(''topic'', JStr []), (''script'', JStr []), (''audio_duration'', JNum 60),
      (''content_ai_model'', JStr ''chatgpt''), (''content_type'', JStr ''custom_message''),
      (''custom_topics'', JArr [JStr (''Mist'' @ [char_of (233::nat)] @ ''rios'')]),
      (''message_categories'', JArr [JStr []]), (''tone'', JStr ''mysterious''),
      (''image_style'', JStr ''realistic''), (''color_palette'', JStr ''vibrant''),
      (''animation_type'', JStr ''parallax''), (''voice_emotion'', JStr ''neutral''),
      (''speaking_speed'', JNum (27 / 25)), (''use_topmedia_ai'', JBool False),
      (''background_music'', JStr []), (''background_music_volume'', JNum (3 / 20)),
      (''video_duration'', JNum 60), (''transitions'', JStr ''dynamic''),
      (''text_overlay'', JBool True), (''custom_prompt_roteiro'', JStr []),
      (''custom_prompt_imagem'', JStr []), (''custom_prompt_audio'', JStr []),
      (''target_platforms'', JArr [JStr ''short'']), (''target_languages'', JArr [JStr ''pt-BR'']),
      (''ai_competition_mode'', JBool True), (''auto_research_trending'', JBool True),
      (''generate_micro_videos'', JBool True), (''video_effects_enabled'', JBool True),
      (''subtitle_style'', JStr ''neon_glow''), (''revenue_optimization'', JBool True),
      (''voice_style'', JStr ''default''), (''emotion_style'', JStr ''neutro'')]"

section \<open>Properties\<close>

subsection \<open>Facts about the retry loop\<close>

lemma safeFetch_loop_retry_status:
  assumes "fetch attempt = Responds resp" "status resp \<in> set retry_statuses" "int attempt < retries"
  shows "safeFetch_loop fetch random retries d attempt ws =
         safeFetch_loop fetch random retries d (Suc attempt) (ws @ [backoff d attempt (random attempt)])"
  using assms by (subst safeFetch_loop.simps) simp

lemma safeFetch_loop_last_response:
  assumes "fetch attempt = Responds resp" "int attempt = retries"
  shows "safeFetch_loop fetch random retries d attempt ws =
         \<lparr>result = Inr resp, site = ReturnResp, attempts = Suc attempt, waits = ws\<rparr>"
  using assms by (subst safeFetch_loop.simps) simp

text \<open>
  C1. With \<open>retries = 2\<close> and a transport that answers HTTP 503 to every attempt,
  \<open>safeFetch\<close> makes exactly 3 attempts (having slept twice) and then returns the response of
  the third attempt through the ordinary \<open>return resp\<close>; it does not retry further and does
  not throw.
\<close>

theorem safeFetch_503_three_attempts:
  assumes "\<forall>k. \<exists>resp. fetch k = Responds resp \<and> status resp = 503"
  shows "\<exists>resp. fetch 2 = Responds resp \<and> status resp = 503 \<and>
           safeFetch fetch random \<lparr>cfg_retries = Some 2, cfg_retryDelayBaseMs = d\<rparr> =
             \<lparr>result = Inr resp, site = ReturnResp, attempts = 3,
              waits = [backoff (case d of None \<Rightarrow> 800 | Some b \<Rightarrow> b) 0 (random 0),
                       backoff (case d of None \<Rightarrow> 800 | Some b \<Rightarrow> b) 1 (random 1)]\<rparr>"
proof -
  obtain r0 where r0: "fetch 0 = Responds r0" "status r0 = 503" using assms by blast
  obtain r1 where r1: "fetch (Suc 0) = Responds r1" "status r1 = 503" using assms by blast
  obtain r2 where r2: "fetch (Suc (Suc 0)) = Responds r2" "status r2 = 503" using assms by blast
  have in_set: "(503::int) \<in> set retry_statuses" by (simp add: retry_statuses_def)
  let ?b = "case d of None \<Rightarrow> 800 | Some b \<Rightarrow> b"
  have "safeFetch_loop fetch random 2 ?b 0 [] =
        safeFetch_loop fetch random 2 ?b (Suc 0) [backoff ?b 0 (random 0)]"
    using safeFetch_loop_retry_status [where fetch = fetch and attempt = 0 and resp = r0
        and retries = 2 and random = random and d = ?b and ws = "[]"] r0 in_set by simp
  also have "\<dots> = safeFetch_loop fetch random 2 ?b (Suc (Suc 0))
                    [backoff ?b 0 (random 0), backoff ?b (Suc 0) (random (Suc 0))]"
    using safeFetch_loop_retry_status [where fetch = fetch and attempt = "Suc 0" and resp = r1
        and retries = 2 and random = random and d = ?b and ws = "[backoff ?b 0 (random 0)]"]
      r1 in_set by simp
  also have "\<dots> = \<lparr>result = Inr r2, site = ReturnResp, attempts = 3,
                    waits = [backoff ?b 0 (random 0), backoff ?b (Suc 0) (random (Suc 0))]\<rparr>"
    using safeFetch_loop_last_response [where fetch = fetch and attempt = "Suc (Suc 0)"
        and resp = r2 and retries = 2 and random = random and d = ?b] r2
    by (simp add: eval_nat_numeral)
  finally have "safeFetch fetch random \<lparr>cfg_retries = Some 2, cfg_retryDelayBaseMs = d\<rparr> =
      \<lparr>result = Inr r2, site = ReturnResp, attempts = 3,
       waits = [backoff ?b 0 (random 0), backoff ?b 1 (random 1)]\<rparr>"
    by (simp add: safeFetch_def)
  moreover have "fetch 2 = Responds r2" using r2(1) by (simp add: eval_nat_numeral)
  ultimately show ?thesis using r2(2) by blast
qed

theorem safeFetch_503_three_attempts_witness:
  "(\<forall>k. \<exists>resp. (\<lambda>_. Responds \<lparr>status = 503, body = ()\<rparr>) (k::nat) = Responds resp \<and> status resp = 503) \<and>
   safeFetch (\<lambda>_. Responds \<lparr>status = 503, body = ()\<rparr>) (\<lambda>_. 1 / 2)
       \<lparr>cfg_retries = Some 2, cfg_retryDelayBaseMs = None\<rparr> =
     \<lparr>result = Inr \<lparr>status = 503, body = ()\<rparr>, site = ReturnResp, attempts = 3,
      waits = [925, 1725]\<rparr>"
  using safeFetch_503_three_attempts [of "\<lambda>_. Responds \<lparr>status = 503, body = ()\<rparr>" "\<lambda>_. 1 / 2" None]
  by (simp add: backoff_def backoff_base_def jitter_def)



lemma safeFetch_loop_exit:
  assumes "int attempt \<le> retries"
  shows "Suc attempt \<le> attempts (safeFetch_loop fetch random retries d attempt ws) \<and>
         int (attempts (safeFetch_loop fetch random retries d attempt ws)) \<le> retries + 1 \<and>
         (site (safeFetch_loop fetch random retries d attempt ws) = ReturnResp \<and>
            (\<exists>resp. fetch (attempts (safeFetch_loop fetch random retries d attempt ws) - 1) = Responds resp \<and>
               result (safeFetch_loop fetch random retries d attempt ws) = Inr resp)
          \<or>
          site (safeFetch_loop fetch random retries d attempt ws) = CatchThrow \<and>
            int (attempts (safeFetch_loop fetch random retries d attempt ws)) = retries + 1 \<and>
            (\<exists>err. fetch (attempts (safeFetch_loop fetch random retries d attempt ws) - 1) = Throws err \<and>
               result (safeFetch_loop fetch random retries d attempt ws) =
                 Inl (if err_name err = ''AbortError'' then timeout_error else err)))"
  using assms
proof (induction fetch random retries d attempt ws rule: safeFetch_loop.induct)
  case (1 fetch random retries d attempt ws)
  show ?case
  proof (cases "fetch attempt")
    case (Responds resp)
    show ?thesis
    proof (cases "status resp \<in> set retry_statuses \<and> int attempt < retries")
      case True
      then have le: "int (Suc attempt) \<le> retries" by simp
      have eq: "safeFetch_loop fetch random retries d attempt ws =
            safeFetch_loop fetch random retries d (Suc attempt) (ws @ [backoff d attempt (random attempt)])"
        using Responds True "1.prems" by (subst safeFetch_loop.simps) simp
      show ?thesis
        unfolding eq using "1.IH"(1) [OF "1.prems" Responds True le] by auto
    next
      case False
      have eq: "safeFetch_loop fetch random retries d attempt ws =
          \<lparr>result = Inr resp, site = ReturnResp, attempts = Suc attempt, waits = ws\<rparr>"
        using Responds False "1.prems" by (subst safeFetch_loop.simps) auto
      show ?thesis unfolding eq using Responds "1.prems" by simp
    qed
  next
    case (Throws err)
    show ?thesis
    proof (cases "int attempt < retries")
      case True
      then have le: "int (Suc attempt) \<le> retries" by simp
      have eq: "safeFetch_loop fetch random retries d attempt ws =
            safeFetch_loop fetch random retries d (Suc attempt) (ws @ [backoff d attempt (random attempt)])"
        using Throws True "1.prems" by (subst safeFetch_loop.simps) simp
      show ?thesis
        unfolding eq using "1.IH"(2) [OF "1.prems" Throws True le] by auto
    next
      case False
      have eq: "safeFetch_loop fetch random retries d attempt ws =
          \<lparr>result = Inl (if err_name err = ''AbortError'' then timeout_error else err),
           site = CatchThrow, attempts = Suc attempt, waits = ws\<rparr>"
        using Throws False "1.prems" by (subst safeFetch_loop.simps) auto
      show ?thesis unfolding eq using Throws "1.prems" False by simp
    qed
  qed
qed

lemma safeFetch_loop_waits:
  assumes "int attempt \<le> retries"
  shows "waits (safeFetch_loop fetch random retries d attempt ws) =
         ws @ map (\<lambda>k. backoff d k (random k))
                [attempt ..< attempts (safeFetch_loop fetch random retries d attempt ws) - 1]"
  using assms
proof (induction fetch random retries d attempt ws rule: safeFetch_loop.induct)
  case (1 fetch random retries d attempt ws)
  show ?case
  proof (cases "fetch attempt")
    case (Responds resp)
    show ?thesis
    proof (cases "status resp \<in> set retry_statuses \<and> int attempt < retries")
      case True
      then have le: "int (Suc attempt) \<le> retries" by simp
      have eq: "safeFetch_loop fetch random retries d attempt ws =
            safeFetch_loop fetch random retries d (Suc attempt) (ws @ [backoff d attempt (random attempt)])"
        using Responds True "1.prems" by (subst safeFetch_loop.simps) simp
      have "Suc (Suc attempt) \<le> attempts (safeFetch_loop fetch random retries d (Suc attempt)
               (ws @ [backoff d attempt (random attempt)]))"
        using safeFetch_loop_exit [OF le] by blast
      then show ?thesis
        unfolding eq using "1.IH"(1) [OF "1.prems" Responds True le]
        by (simp add: upt_conv_Cons)
    next
      case False
      have eq: "safeFetch_loop fetch random retries d attempt ws =
          \<lparr>result = Inr resp, site = ReturnResp, attempts = Suc attempt, waits = ws\<rparr>"
        using Responds False "1.prems" by (subst safeFetch_loop.simps) auto
      show ?thesis unfolding eq by simp
    qed
  next
    case (Throws err)
    show ?thesis
    proof (cases "int attempt < retries")
      case True
      then have le: "int (Suc attempt) \<le> retries" by simp
      have eq: "safeFetch_loop fetch random retries d attempt ws =
            safeFetch_loop fetch random retries d (Suc attempt) (ws @ [backoff d attempt (random attempt)])"
        using Throws True "1.prems" by (subst safeFetch_loop.simps) simp
      have "Suc (Suc attempt) \<le> attempts (safeFetch_loop fetch random retries d (Suc attempt)
               (ws @ [backoff d attempt (random attempt)]))"
        using safeFetch_loop_exit [OF le] by blast
      then show ?thesis
        unfolding eq using "1.IH"(2) [OF "1.prems" Throws True le]
        by (simp add: upt_conv_Cons)
    next
      case False
      have eq: "safeFetch_loop fetch random retries d attempt ws =
          \<lparr>result = Inl (if err_name err = ''AbortError'' then timeout_error else err),
           site = CatchThrow, attempts = Suc attempt, waits = ws\<rparr>"
        using Throws False "1.prems" by (subst safeFetch_loop.simps) auto
      show ?thesis unfolding eq by simp
    qed
  qed
qed

lemma safeFetch_loop_all_throw:
  assumes "int attempt \<le> retries"
    and "\<forall>k. attempt \<le> k \<and> int k \<le> retries \<longrightarrow> (\<exists>err. fetch k = Throws err)"
  shows "attempts (safeFetch_loop fetch random retries d attempt ws) = nat retries + 1 \<and>
         site (safeFetch_loop fetch random retries d attempt ws) = CatchThrow"
  using assms
proof (induction fetch random retries d attempt ws rule: safeFetch_loop.induct)
  case (1 fetch random retries d attempt ws)
  obtain err where err: "fetch attempt = Throws err" using "1.prems" by auto
  show ?case
  proof (cases "int attempt < retries")
    case True
    then have le: "int (Suc attempt) \<le> retries" by simp
    have eq: "safeFetch_loop fetch random retries d attempt ws =
          safeFetch_loop fetch random retries d (Suc attempt) (ws @ [backoff d attempt (random attempt)])"
      using err True "1.prems" by (subst safeFetch_loop.simps) simp
    have "\<forall>k. Suc attempt \<le> k \<and> int k \<le> retries \<longrightarrow> (\<exists>err. fetch k = Throws err)"
      using "1.prems"(2) by auto
    then show ?thesis
      unfolding eq using "1.IH"(2) [OF "1.prems"(1) err True le] by blast
  next
    case False
    have eq: "safeFetch_loop fetch random retries d attempt ws =
        \<lparr>result = Inl (if err_name err = ''AbortError'' then timeout_error else err),
         site = CatchThrow, attempts = Suc attempt, waits = ws\<rparr>"
      using err False "1.prems" by (subst safeFetch_loop.simps) auto
    show ?thesis unfolding eq using False "1.prems"(1) by simp
  qed
qed

lemma safeFetch_loop_negative:
  assumes "retries < 0"
  shows "safeFetch_loop fetch random retries d 0 [] =
         \<lparr>result = Inl unexpected_error, site = PostLoopThrow, attempts = 0, waits = []\<rparr>"
  using assms by (subst safeFetch_loop.simps) simp




text \<open>
  C5. When every attempt of a \<open>safeFetch\<close> call ends in a thrown value, the call makes
  \<open>retries + 1\<close> attempts and then throws from the \<open>catch\<close> branch: the timeout error when
  the value thrown in the last attempt is named \<open>AbortError\<close>, that value itself
  otherwise. The values thrown in the earlier attempts do not appear in the result.
\<close>

theorem safeFetch_exhausted_errors:
  assumes "retries = (case cfg_retries cfg of None \<Rightarrow> DEFAULT_RETRIES | Some n \<Rightarrow> n)"
    and "0 \<le> retries"
    and "\<forall>k. int k \<le> retries \<longrightarrow> (\<exists>err. fetch k = Throws err)"
  shows "\<exists>err. fetch (nat retries) = Throws err \<and>
           result (safeFetch fetch random cfg) =
             Inl (if err_name err = ''AbortError'' then timeout_error else err) \<and>
           site (safeFetch fetch random cfg) = CatchThrow \<and>
           attempts (safeFetch fetch random cfg) = nat retries + 1"
proof -
  let ?d = "case cfg_retryDelayBaseMs cfg of None \<Rightarrow> 800 | Some d \<Rightarrow> d"
  let ?run = "safeFetch_loop fetch random retries ?d 0 []"
  have run: "safeFetch fetch random cfg = ?run"
    using assms(1) by (simp add: safeFetch_def)
  have le: "int 0 \<le> retries" using assms(2) by simp
  have all: "\<forall>k. 0 \<le> k \<and> int k \<le> retries \<longrightarrow> (\<exists>err. fetch k = Throws err)"
    using assms(3) by simp
  have a: "attempts ?run = nat retries + 1" and s: "site ?run = CatchThrow"
    using safeFetch_loop_all_throw [OF le all] by blast+
  from safeFetch_loop_exit [OF le, of fetch random ?d "[]"] s
  obtain err where "fetch (attempts ?run - 1) = Throws err"
    "result ?run = Inl (if err_name err = ''AbortError'' then timeout_error else err)"
    by auto
  then show ?thesis unfolding run using a s by auto
qed

theorem safeFetch_exhausted_errors_witness:
  "result (safeFetch (\<lambda>k. Throws (if k = 1 then \<lparr>err_name = ''AbortError'', err_message = ''aborted''\<rparr>
                                     else \<lparr>err_name = ''TypeError'', err_message = ''Failed to fetch''\<rparr>))
             (\<lambda>_. 0) \<lparr>cfg_retries = Some 1, cfg_retryDelayBaseMs = None\<rparr> :: unit fetch_run) =
     Inl timeout_error \<and>
   result (safeFetch (\<lambda>k. Throws (if k = 0 then \<lparr>err_name = ''AbortError'', err_message = ''aborted''\<rparr>
                                     else \<lparr>err_name = ''TypeError'', err_message = ''Failed to fetch''\<rparr>))
             (\<lambda>_. 0) \<lparr>cfg_retries = Some 1, cfg_retryDelayBaseMs = None\<rparr> :: unit fetch_run) =
     Inl \<lparr>err_name = ''TypeError'', err_message = ''Failed to fetch''\<rparr>"
  using safeFetch_exhausted_errors [of 1 "\<lparr>cfg_retries = Some 1, cfg_retryDelayBaseMs = None\<rparr>"
      "\<lambda>k. Throws (if k = 1 then \<lparr>err_name = ''AbortError'', err_message = ''aborted''\<rparr>
                      else \<lparr>err_name = ''TypeError'', err_message = ''Failed to fetch''\<rparr>) :: unit fetch_outcome"
      "\<lambda>_. 0"]
    safeFetch_exhausted_errors [of 1 "\<lparr>cfg_retries = Some 1, cfg_retryDelayBaseMs = None\<rparr>"
      "\<lambda>k. Throws (if k = 0 then \<lparr>err_name = ''AbortError'', err_message = ''aborted''\<rparr>
                      else \<lparr>err_name = ''TypeError'', err_message = ''Failed to fetch''\<rparr>) :: unit fetch_outcome"
      "\<lambda>_. 0"]
  by simp

text \<open>
  C10. For \<open>retries \<ge> 0\<close> (the default included) the \<open>throw\<close> after the loop is not reached:
  the loop body runs at least once, and the call leaves either through \<open>return resp\<close> with
  the response of its last attempt or through the \<open>throw\<close> of the \<open>catch\<close> branch with the
  value thrown in its last attempt.
\<close>

theorem safeFetch_post_loop_unreachable:
  assumes "\<forall>n. cfg_retries cfg = Some n \<longrightarrow> 0 \<le> n"
  shows "site (safeFetch fetch random cfg) \<noteq> PostLoopThrow \<and>
         1 \<le> attempts (safeFetch fetch random cfg) \<and>
         (site (safeFetch fetch random cfg) = ReturnResp \<and>
            (\<exists>resp. fetch (attempts (safeFetch fetch random cfg) - 1) = Responds resp \<and>
               result (safeFetch fetch random cfg) = Inr resp)
          \<or>
          site (safeFetch fetch random cfg) = CatchThrow \<and>
            (\<exists>err. fetch (attempts (safeFetch fetch random cfg) - 1) = Throws err \<and>
               result (safeFetch fetch random cfg) =
                 Inl (if err_name err = ''AbortError'' then timeout_error else err)))"
proof -
  let ?r = "case cfg_retries cfg of None \<Rightarrow> DEFAULT_RETRIES | Some n \<Rightarrow> n"
  let ?d = "case cfg_retryDelayBaseMs cfg of None \<Rightarrow> 800 | Some d \<Rightarrow> d"
  have r: "int 0 \<le> ?r" using assms by (simp add: DEFAULT_RETRIES_def split: option.splits)
  have run: "safeFetch fetch random cfg = safeFetch_loop fetch random ?r ?d 0 []"
    by (simp add: safeFetch_def)
  show ?thesis
    unfolding run using safeFetch_loop_exit [OF r, of fetch random ?d "[]"] by auto
qed

theorem safeFetch_post_loop_unreachable_witness:
  "site (safeFetch (\<lambda>_. Throws \<lparr>err_name = ''TypeError'', err_message = ''Failed to fetch''\<rparr>)
           (\<lambda>_. 0) \<lparr>cfg_retries = Some 0, cfg_retryDelayBaseMs = None\<rparr> :: unit fetch_run) = CatchThrow"
  using safeFetch_post_loop_unreachable [of "\<lparr>cfg_retries = Some 0, cfg_retryDelayBaseMs = None\<rparr>"
      "\<lambda>_. Throws \<lparr>err_name = ''TypeError'', err_message = ''Failed to fetch''\<rparr> :: unit fetch_outcome"
      "\<lambda>_. 0"]
  by auto

lemma jitter_range:
  assumes "0 \<le> r" "r < 1"
  shows "0 \<le> jitter r \<and> jitter r < 250"
proof -
  have "0 \<le> r * 250" using assms by simp
  moreover have "r * 250 < 250" using assms by simp
  ultimately show ?thesis unfolding jitter_def by (simp add: floor_less_iff)
qed

lemma backoff_base_mono:
  assumes "0 \<le> d" "m \<le> n"
  shows "backoff_base d m \<le> backoff_base d n"
proof -
  have "(2::int) ^ m \<le> 2 ^ n" using assms(2) by (simp add: power_increasing)
  then show ?thesis unfolding backoff_base_def using assms(1) by (simp add: mult_left_mono)
qed

text \<open>
  C6. The \<open>n\<close>-th delay that a \<open>safeFetch\<close> call sleeps, before it retries after attempt
  \<open>n\<close>, is \<open>retryDelayBaseMs * 2 ^ n\<close> plus a jitter that lies in \<open>[0, 250)\<close>, the random
  source giving values in \<open>[0, 1)\<close>. For a base delay that is not negative, the delay
  without its jitter does not decrease with \<open>n\<close> and is at least the base delay.
\<close>

theorem backoff_delay:
  assumes "0 \<le> d"
    and "\<forall>k. 0 \<le> random k \<and> random k < 1"
    and "n < length (waits (safeFetch_loop fetch random retries d 0 []))"
  shows "waits (safeFetch_loop fetch random retries d 0 []) ! n = d * 2 ^ n + jitter (random n) \<and>
         0 \<le> jitter (random n) \<and> jitter (random n) < 250 \<and>
         (\<forall>m. m \<le> n \<longrightarrow> backoff_base d m \<le> backoff_base d n) \<and>
         d \<le> backoff_base d n"
proof -
  let ?run = "safeFetch_loop fetch random retries d 0 []"
  have r: "int 0 \<le> retries"
  proof (rule ccontr)
    assume "\<not> int 0 \<le> retries"
    then have "retries < 0" by simp
    then have "waits ?run = []" by (simp add: safeFetch_loop_negative)
    then show False using assms(3) by simp
  qed
  have w: "waits ?run = map (\<lambda>k. backoff d k (random k)) [0 ..< attempts ?run - 1]"
    using safeFetch_loop_waits [OF r, of fetch random d "[]"] by simp
  have n: "n < attempts ?run - 1" using assms(3) by (subst (asm) w) simp
  have "waits ?run ! n = backoff d n (random n)"
    using n by (subst w) simp
  then have 1: "waits ?run ! n = d * 2 ^ n + jitter (random n)"
    by (simp add: backoff_def backoff_base_def)
  have 2: "0 \<le> jitter (random n) \<and> jitter (random n) < 250"
    using assms(2) jitter_range by blast
  have 3: "\<forall>m. m \<le> n \<longrightarrow> backoff_base d m \<le> backoff_base d n"
    using backoff_base_mono [OF assms(1)] by blast
  have "backoff_base d 0 \<le> backoff_base d n" using backoff_base_mono [OF assms(1)] by blast
  then have 4: "d \<le> backoff_base d n" by (simp add: backoff_base_def)
  show ?thesis using 1 2 3 4 by blast
qed

theorem backoff_delay_witness:
  "waits (safeFetch_loop (\<lambda>_. Responds \<lparr>status = 503, body = ()\<rparr>) (\<lambda>_. 1 / 2) 2 800 0 []) ! 1 = 1725 \<and>
   jitter (1 / 2) = 125 \<and> backoff_base 800 0 \<le> backoff_base 800 1 \<and> 800 \<le> backoff_base 800 1"
proof -
  have w: "waits (safeFetch_loop (\<lambda>_. Responds \<lparr>status = 503, body = ()\<rparr>) (\<lambda>_. 1 / 2) 2 800 0 []) = [925, 1725]"
    by (simp add: safeFetch_loop.simps retry_statuses_def backoff_def backoff_base_def jitter_def)
  have "(1::nat) < length (waits (safeFetch_loop (\<lambda>_. Responds \<lparr>status = 503, body = ()\<rparr>) (\<lambda>_. 1 / 2) 2 800 0 []))"
    by (simp add: w)
  from backoff_delay [of 800 "\<lambda>_. 1 / 2" 1 "\<lambda>_. Responds \<lparr>status = 503, body = ()\<rparr>" 2, OF _ _ this]
  show ?thesis by (simp add: jitter_def)
qed

text \<open>
  C7. For every wizard state and target stage \<open>M\<close>, \<open>goToStep\<close> changes the current stage
  only if \<open>M\<close> is 1 or the completion flag at index \<open>M - 2\<close> is true, and then sets it to
  \<open>M\<close>; otherwise it leaves the state as it is. \<open>isStepAccessible\<close> is the same test.
\<close>

theorem goToStep_gated:
  "(currentStep (goToStep st M) \<noteq> currentStep st \<longrightarrow> M = 1 \<or> flag_at (stepCompleted st) (M - 2)) \<and>
   (\<not> (M = 1 \<or> flag_at (stepCompleted st) (M - 2)) \<longrightarrow> goToStep st M = st) \<and>
   (M = 1 \<or> flag_at (stepCompleted st) (M - 2) \<longrightarrow> goToStep st M = st\<lparr>currentStep := M\<rparr>) \<and>
   (2 \<le> M \<and> M \<le> int (length (stepCompleted st)) + 1 \<longrightarrow>
      flag_at (stepCompleted st) (M - 2) = stepCompleted st ! nat (M - 2)) \<and>
   isStepAccessible st M = (M = 1 \<or> flag_at (stepCompleted st) (M - 2))"
  by (auto simp: goToStep_def isStepAccessible_def flag_at_def)

theorem goToStep_gated_witness:
  "goToStep \<lparr>currentStep = 2, stepCompleted = [True, False, False, False, False, False],
             generatedImages = [], videoPreview = None\<rparr> 3 =
     \<lparr>currentStep = 2, stepCompleted = [True, False, False, False, False, False],
      generatedImages = [], videoPreview = None\<rparr> \<and>
   goToStep \<lparr>currentStep = 2, stepCompleted = [True, False, False, False, False, False],
             generatedImages = [], videoPreview = None\<rparr> 1 =
     \<lparr>currentStep = 1, stepCompleted = [True, False, False, False, False, False],
      generatedImages = [], videoPreview = None\<rparr>"
  using goToStep_gated [of "\<lparr>currentStep = 2, stepCompleted = [True, False, False, False, False, False],
             generatedImages = [], videoPreview = None\<rparr>" 3]
    goToStep_gated [of "\<lparr>currentStep = 2, stepCompleted = [True, False, False, False, False, False],
             generatedImages = [], videoPreview = None\<rparr>" 1]
  by (simp add: flag_at_def)

lemma flag_at_flag_set:
  assumes "0 \<le> i"
  shows "flag_at (flag_set xs i) j = (j = i \<or> flag_at xs j)"
proof (cases "i < int (length xs)")
  case True
  then show ?thesis using assms
    by (auto simp: flag_at_def flag_set_def nth_list_update)
next
  case False
  then show ?thesis using assms
    by (auto simp: flag_at_def flag_set_def nth_append)
qed

text \<open>
  The advance button requires \<open>canCompleteCurrentStep\<close> to hold of the current
  configuration: without it the click changes nothing. Stage 1 requires a script whose
  trimmed length exceeds 50, stage 2 a script and an audio file reference, stage 5 a
  non-empty list of platforms. \<open>completeStep N\<close> itself checks nothing: it sets the flag
  at index \<open>N - 1\<close>, leaves the other flags, and moves the current stage to \<open>N + 1\<close>
  unless \<open>N\<close> is 6.
\<close>

lemma next_button_click_gated:
  "(\<not> canCompleteCurrentStep contentSettings st \<longrightarrow> next_button_click contentSettings st = st) \<and>
   (canCompleteCurrentStep contentSettings st \<and> currentStep st < 6 \<longrightarrow>
      next_button_click contentSettings st = completeStep st (currentStep st)) \<and>
   (1 \<le> N \<longrightarrow>
      flag_at (stepCompleted (completeStep st N)) (N - 1) \<and>
      (\<forall>i. i \<noteq> N - 1 \<longrightarrow>
         flag_at (stepCompleted (completeStep st N)) i = flag_at (stepCompleted st) i) \<and>
      currentStep (completeStep st N) = (if N < 6 then N + 1 else currentStep st)) \<and>
   (currentStep st = 1 \<longrightarrow>
      canCompleteCurrentStep contentSettings st =
        (\<exists>s. contentSettings ''script'' = Some (JStr s) \<and> s \<noteq> [] \<and> 50 < length (trim s))) \<and>
   (currentStep st = 2 \<longrightarrow>
      canCompleteCurrentStep contentSettings st =
        (truthy (contentSettings ''script'') \<and> truthy (contentSettings ''audio_file''))) \<and>
   (currentStep st = 5 \<longrightarrow>
      canCompleteCurrentStep contentSettings st =
        (\<exists>xs. contentSettings ''target_platforms'' = Some (JArr xs) \<and> xs \<noteq> []))"
proof -
  have a: "\<not> canCompleteCurrentStep contentSettings st \<longrightarrow> next_button_click contentSettings st = st"
    by (simp add: next_button_click_def)
  have b: "canCompleteCurrentStep contentSettings st \<and> currentStep st < 6 \<longrightarrow>
      next_button_click contentSettings st = completeStep st (currentStep st)"
    by (simp add: next_button_click_def)
  have c: "1 \<le> N \<longrightarrow>
      flag_at (stepCompleted (completeStep st N)) (N - 1) \<and>
      (\<forall>i. i \<noteq> N - 1 \<longrightarrow>
         flag_at (stepCompleted (completeStep st N)) i = flag_at (stepCompleted st) i) \<and>
      currentStep (completeStep st N) = (if N < 6 then N + 1 else currentStep st)"
    by (simp add: completeStep_def flag_at_flag_set)
  have d: "currentStep st = 1 \<longrightarrow>
      canCompleteCurrentStep contentSettings st =
        (\<exists>s. contentSettings ''script'' = Some (JStr s) \<and> s \<noteq> [] \<and> 50 < length (trim s))"
    by (auto simp: canCompleteCurrentStep_def split: option.splits json.splits)
  have e: "currentStep st = 2 \<longrightarrow>
      canCompleteCurrentStep contentSettings st =
        (truthy (contentSettings ''script'') \<and> truthy (contentSettings ''audio_file''))"
    by (simp add: canCompleteCurrentStep_def)
  have f: "currentStep st = 5 \<longrightarrow>
      canCompleteCurrentStep contentSettings st =
        (\<exists>xs. contentSettings ''target_platforms'' = Some (JArr xs) \<and> xs \<noteq> [])"
    by (auto simp: canCompleteCurrentStep_def split: option.splits json.splits)
  show ?thesis using a b c d e f by blast
qed

lemma next_button_click_examples:
  "next_button_click [''script'' \<mapsto> JStr (replicate 60 CHR ''a'')] initial_wizard =
     \<lparr>currentStep = 2, stepCompleted = [True, False, False, False, False, False],
      generatedImages = [], videoPreview = None\<rparr> \<and>
   next_button_click [''script'' \<mapsto> JStr ''too short''] initial_wizard = initial_wizard \<and>
   next_button_click [''script'' \<mapsto> JStr ''Era uma vez'', ''audio_file'' \<mapsto> JStr ''/media/a.mp3'']
       (initial_wizard\<lparr>currentStep := 2\<rparr>) =
     \<lparr>currentStep = 3, stepCompleted = [False, True, False, False, False, False],
      generatedImages = [], videoPreview = None\<rparr> \<and>
   next_button_click [''target_platforms'' \<mapsto> JArr []] (initial_wizard\<lparr>currentStep := 5\<rparr>) =
     initial_wizard\<lparr>currentStep := 5\<rparr>"
proof -
  have t: "trim (replicate 60 CHR ''a'') = replicate 60 CHR ''a''"
    by (simp add: trim_def is_ws_def Let_def)
  have t2: "trim ''too short'' = ''too short''"
    by (simp add: trim_def is_ws_def Let_def)
  have c1: "canCompleteCurrentStep [''script'' \<mapsto> JStr (replicate 60 CHR ''a'')] initial_wizard"
    by (simp add: canCompleteCurrentStep_def initial_wizard_def t)
  have c2: "\<not> canCompleteCurrentStep [''script'' \<mapsto> JStr ''too short''] initial_wizard"
    by (simp add: canCompleteCurrentStep_def initial_wizard_def t2)
  have s: "currentStep initial_wizard = 1" by (simp add: initial_wizard_def)
  from next_button_click_gated [of "[''script'' \<mapsto> JStr (replicate 60 CHR ''a'')]" initial_wizard 1] c1 s
  have 1: "next_button_click [''script'' \<mapsto> JStr (replicate 60 CHR ''a'')] initial_wizard =
        completeStep initial_wizard 1" by simp
  from next_button_click_gated [of "[''script'' \<mapsto> JStr ''too short'']" initial_wizard 1] c2
  have 2: "next_button_click [''script'' \<mapsto> JStr ''too short''] initial_wizard = initial_wizard"
    by blast
  let ?cs2 = "[''script'' \<mapsto> JStr ''Era uma vez'', ''audio_file'' \<mapsto> JStr ''/media/a.mp3'']"
  let ?st2 = "initial_wizard\<lparr>currentStep := 2\<rparr>"
  have s2: "currentStep ?st2 = 2" by simp
  have "truthy (?cs2 ''script'') \<and> truthy (?cs2 ''audio_file'')" by simp
  with next_button_click_gated [of ?cs2 ?st2 2] s2
  have 3: "next_button_click ?cs2 ?st2 = completeStep ?st2 2" by simp
  let ?cs5 = "[''target_platforms'' \<mapsto> JArr []]"
  let ?st5 = "initial_wizard\<lparr>currentStep := 5\<rparr>"
  have s5: "currentStep ?st5 = 5" by simp
  have "\<not> (\<exists>xs. ?cs5 ''target_platforms'' = Some (JArr xs) \<and> xs \<noteq> [])" by simp
  with next_button_click_gated [of ?cs5 ?st5 5] s5
  have 4: "next_button_click ?cs5 ?st5 = ?st5" by blast
  show ?thesis
    unfolding 1 2 3 4 by (simp add: completeStep_def initial_wizard_def flag_set_def)
qed

text \<open>
  Stage 2 is also completed by \<open>onSelectComplete\<close>, which calls \<open>completeStep(2)\<close> once
  a generated audio URL is returned. Its calls of \<open>updateSettings\<close> all start from the
  aggregate of the same render, so the last one decides the next aggregate, and
  \<open>audio_file\<close> stays what it was.
\<close>

lemma onSelectComplete_next_render:
  assumes "res_audio_url res \<noteq> []"
  shows "fst (onSelectComplete contentSettings st res) ''audio_file'' = contentSettings ''audio_file''"
    and "fst (onSelectComplete contentSettings st res) ''script'' = contentSettings ''script''"
    and "snd (onSelectComplete contentSettings st res) = completeStep st 2"
  using assms by (simp_all add: onSelectComplete_def setState_flush_def updateSettings_def)

lemma initial_contentSettings_audio_file:
  "initial_contentSettings ''audio_file'' = None"
  by (simp add: initial_contentSettings_def)

text \<open>
  C4. Completing stage \<open>N\<close> is to require the predicate of the stage to hold of the
  configuration: for stage 2, a script and a generated audio file reference. The advance
  button does (\<open>next_button_click_gated\<close>). \<open>onSelectComplete\<close> does not: on stage 2, with
  a script and no audio file yet, a returned audio URL completes stage 2 and moves to
  stage 3, while the aggregate of the next render still has no \<open>audio_file\<close>, so that the
  predicate of stage 2 is false of it and the advance button would have refused.
\<close>

theorem onSelectComplete_stage2_predicate_false:
  "snd (onSelectComplete
          (initial_contentSettings(''script'' \<mapsto> JStr ''Era uma vez'',
             ''voice_profile'' \<mapsto> JStr ''male-professional''))
          \<lparr>currentStep = 2, stepCompleted = [True, False, False, False, False, False],
           generatedImages = [], videoPreview = None\<rparr>
          \<lparr>res_audio_url = ''/media/a.mp3'', res_model = Some ''google'',
           res_voice_profile = Some ''male-professional''\<rparr>) =
     \<lparr>currentStep = 3, stepCompleted = [True, True, False, False, False, False],
      generatedImages = [], videoPreview = None\<rparr> \<and>
   fst (onSelectComplete
          (initial_contentSettings(''script'' \<mapsto> JStr ''Era uma vez'',
             ''voice_profile'' \<mapsto> JStr ''male-professional''))
          \<lparr>currentStep = 2, stepCompleted = [True, False, False, False, False, False],
           generatedImages = [], videoPreview = None\<rparr>
          \<lparr>res_audio_url = ''/media/a.mp3'', res_model = Some ''google'',
           res_voice_profile = Some ''male-professional''\<rparr>) ''audio_file'' = None \<and>
   \<not> canCompleteCurrentStep
       (fst (onSelectComplete
          (initial_contentSettings(''script'' \<mapsto> JStr ''Era uma vez'',
             ''voice_profile'' \<mapsto> JStr ''male-professional''))
          \<lparr>currentStep = 2, stepCompleted = [True, False, False, False, False, False],
           generatedImages = [], videoPreview = None\<rparr>
          \<lparr>res_audio_url = ''/media/a.mp3'', res_model = Some ''google'',
           res_voice_profile = Some ''male-professional''\<rparr>))
       \<lparr>currentStep = 2, stepCompleted = [True, False, False, False, False, False],
        generatedImages = [], videoPreview = None\<rparr> \<and>
   next_button_click
       (initial_contentSettings(''script'' \<mapsto> JStr ''Era uma vez'',
          ''voice_profile'' \<mapsto> JStr ''male-professional''))
       \<lparr>currentStep = 2, stepCompleted = [True, False, False, False, False, False],
        generatedImages = [], videoPreview = None\<rparr> =
     \<lparr>currentStep = 2, stepCompleted = [True, False, False, False, False, False],
      generatedImages = [], videoPreview = None\<rparr>"
proof -
  let ?cs = "initial_contentSettings(''script'' \<mapsto> JStr ''Era uma vez'',
               ''voice_profile'' \<mapsto> JStr ''male-professional'')"
  let ?st = "\<lparr>currentStep = 2, stepCompleted = [True, False, False, False, False, False],
              generatedImages = [], videoPreview = None\<rparr>"
  let ?res = "\<lparr>res_audio_url = ''/media/a.mp3'', res_model = Some ''google'',
               res_voice_profile = Some ''male-professional''\<rparr>"
  have url: "res_audio_url ?res \<noteq> []" by simp
  have none: "?cs ''audio_file'' = None"
    by (simp add: initial_contentSettings_audio_file)
  have a: "snd (onSelectComplete ?cs ?st ?res) =
      \<lparr>currentStep = 3, stepCompleted = [True, True, False, False, False, False],
       generatedImages = [], videoPreview = None\<rparr>"
    unfolding onSelectComplete_next_render(3) [OF url]
    by (simp add: completeStep_def flag_set_def)
  have b: "fst (onSelectComplete ?cs ?st ?res) ''audio_file'' = None"
    unfolding onSelectComplete_next_render(1) [OF url] by (rule none)
  have c: "\<not> canCompleteCurrentStep (fst (onSelectComplete ?cs ?st ?res)) ?st"
    using b by (simp add: canCompleteCurrentStep_def)
  have "\<not> canCompleteCurrentStep ?cs ?st"
    using none by (simp add: canCompleteCurrentStep_def)
  then have d: "next_button_click ?cs ?st = ?st"
    by (simp add: next_button_click_def)
  show ?thesis using a b c d by (intro conjI)
qed

text \<open>
  For an origin that ends neither in a slash nor in \<open>/api\<close> and an endpoint path that
  does not start with a slash, \<open>ApiService.request\<close> builds \<open>origin/api/path\<close> from every
  way of writing the base (with or without \<open>/api\<close>, with or without a trailing slash) and
  the endpoint (with or without a leading slash). \<open>buildApiUrl\<close> does so for the bases
  without a trailing slash.
\<close>

lemma final_endpoint:
  assumes "\<not> startsWith e ''/''" "endpoint = e \<or> endpoint = ''/'' @ e"
  shows "(if startsWith endpoint ''/'' then endpoint else ''/'' @ endpoint) = ''/'' @ e"
  using assms by (auto simp: startsWith_def)

lemma ApiService_baseUrl_normal:
  assumes "\<not> endsWith origin ''/''"
  shows "ApiService_baseUrl origin = origin"
    and "ApiService_baseUrl (origin @ ''/'') = origin"
    and "ApiService_baseUrl (origin @ ''/api'') = origin @ ''/api''"
    and "ApiService_baseUrl (origin @ ''/api/'') = origin @ ''/api''"
proof -
  show "ApiService_baseUrl origin = origin" using assms by (simp add: ApiService_baseUrl_def)
  show "ApiService_baseUrl (origin @ ''/'') = origin"
    by (simp add: ApiService_baseUrl_def endsWith_def butlast_append)
  have "\<not> suffix ''/'' (origin @ ''/api'')"
    by (simp add: suffix_def)
  then show "ApiService_baseUrl (origin @ ''/api'') = origin @ ''/api''"
    by (simp add: ApiService_baseUrl_def endsWith_def)
  have "suffix ''/'' (origin @ ''/api/'')"
    by (rule suffixI [of _ "origin @ ''/api''"]) simp
  then show "ApiService_baseUrl (origin @ ''/api/'') = origin @ ''/api''"
    by (simp add: ApiService_baseUrl_def endsWith_def butlast_append)
qed

lemma ApiService_request_url_normal:
  assumes "\<not> endsWith origin ''/''" "\<not> endsWith origin ''/api''" "\<not> startsWith e ''/''"
    and "base = origin \<or> base = origin @ ''/'' \<or> base = origin @ ''/api'' \<or> base = origin @ ''/api/''"
    and "endpoint = e \<or> endpoint = ''/'' @ e"
  shows "ApiService_request_url base endpoint = origin @ ''/api/'' @ e"
proof -
  have fe: "(if startsWith endpoint ''/'' then endpoint else ''/'' @ endpoint) = ''/'' @ e"
    using final_endpoint [OF assms(3,5)] .
  have sfx: "endsWith (origin @ ''/api'') ''/api''"
    unfolding endsWith_def by (rule suffixI [OF refl])
  consider "ApiService_baseUrl base = origin" | "ApiService_baseUrl base = origin @ ''/api''"
    using assms(4) ApiService_baseUrl_normal [OF assms(1)] by auto
  then show ?thesis
  proof cases
    case 1
    then show ?thesis using assms(2) fe
      by (simp add: ApiService_request_url_def Let_def)
  next
    case 2
    then show ?thesis using sfx fe
      by (simp add: ApiService_request_url_def Let_def)
  qed
qed

lemma buildApiUrl_normal:
  assumes "\<not> endsWith origin ''/api''" "\<not> startsWith e ''/''"
    and "base = origin \<or> base = origin @ ''/api''"
    and "endpoint = e \<or> endpoint = ''/'' @ e"
  shows "buildApiUrl base endpoint = origin @ ''/api/'' @ e"
proof -
  have fe: "(if startsWith endpoint ''/'' then endpoint else ''/'' @ endpoint) = ''/'' @ e"
    using final_endpoint [OF assms(2,4)] .
  have sfx: "endsWith (origin @ ''/api'') ''/api''"
    unfolding endsWith_def by (rule suffixI [OF refl])
  show ?thesis using assms(1,3) fe sfx
    by (auto simp: buildApiUrl_def Let_def)
qed

text \<open>
  C2. The URL builder is to produce exactly one API prefix and no doubled slash for a base
  written with or without a trailing slash and with or without \<open>/api\<close>. \<open>buildApiUrl\<close>
  does not for a base with a trailing slash: from the base \<open>https://x.com/api/\<close> and the
  endpoint \<open>foo\<close> it builds \<open>https://x.com/api//api/foo\<close>, with two occurrences of the
  prefix and a doubled slash, and from \<open>https://x.com/\<close> and \<open>/foo\<close> it builds
  \<open>https://x.com//api/foo\<close>. \<open>ApiService.request\<close>, which removes a trailing slash of
  the base first, builds \<open>https://x.com/api/foo\<close> from both.
\<close>

theorem buildApiUrl_trailing_slash:
  "buildApiUrl (API_BASE_URL (Some ''https://x.com/api/'')) ''foo'' = ''https://x.com/api//api/foo'' \<and>
   count_occ ''/api'' (buildApiUrl (API_BASE_URL (Some ''https://x.com/api/'')) ''foo'') = 2 \<and>
   buildApiUrl (API_BASE_URL (Some ''https://x.com/'')) ''/foo'' = ''https://x.com//api/foo'' \<and>
   ApiService_request_url (API_BASE_URL (Some ''https://x.com/api/'')) ''foo'' = ''https://x.com/api/foo'' \<and>
   ApiService_request_url (API_BASE_URL (Some ''https://x.com/'')) ''/foo'' = ''https://x.com/api/foo''"
  by (simp add: buildApiUrl_def ApiService_request_url_def ApiService_baseUrl_def API_BASE_URL_def
      startsWith_def endsWith_def suffix_to_prefix)

lemma map_of_persisted:
  "map_of (List.map_filter (\<lambda>k. map_option (Pair k) (contentSettings k)) ks) k =
     (if k \<in> set ks then contentSettings k else None)"
proof (induction ks)
  case Nil
  then show ?case by simp
next
  case (Cons a ks)
  then show ?case
    by (cases "contentSettings a") auto
qed

lemma persisted_merge:
  "(fresh ++ spread (get_prop (persist_payload original st) ''settings'')) k =
     (if k \<in> set persisted_keys \<and> original k \<noteq> None then original k else fresh k)"
  by (auto simp: persist_payload_def map_of_persisted map_add_def split: option.splits)

lemma rehydrate_persist_calls:
  "fst (rehydrate fresh fresh_st (Some (persist_payload original st))) =
     [fresh ++ spread (get_prop (persist_payload original st) ''settings'')]"
  by (simp add: rehydrate_def Let_def) (simp add: persist_payload_def)

lemma rehydrate_persist_wizard:
  "snd (rehydrate fresh fresh_st (Some (persist_payload original st))) =
     fresh_st\<lparr>generatedImages := generatedImages st,
              videoPreview := (case videoPreview st of None \<Rightarrow> videoPreview fresh_st | Some v \<Rightarrow> Some v),
              stepCompleted := stepCompleted st\<rparr>"
proof -
  have "(\<lambda>v. truthy (Some v)) \<circ> JBool = id"
    by (simp add: fun_eq_iff)
  then have m: "map ((\<lambda>v. truthy (Some v)) \<circ> JBool) (stepCompleted st) = stepCompleted st"
    by simp
  show ?thesis
    by (cases "videoPreview st") (simp_all add: rehydrate_def persist_payload_def Let_def m)
qed

lemma persisted_keys_examples:
  "''script'' \<in> set persisted_keys" "''subtitle_style'' \<in> set persisted_keys"
  "''topic'' \<notin> set persisted_keys" "''voice_profile'' \<notin> set persisted_keys"
  by (simp_all add: persisted_keys_def)

lemma initial_contentSettings_examples:
  "initial_contentSettings ''topic'' = Some (JStr [])"
  "initial_contentSettings ''script'' = Some (JStr [])"
  "initial_contentSettings ''subtitle_style'' = Some (JStr ''neon_glow'')"
  "initial_contentSettings ''voice_profile'' = None"
  by (simp_all add: initial_contentSettings_def)

text \<open>
  The aggregate after the effects of the first render, a snapshot being stored. When the
  aggregate of that render has a \<open>voice_profile\<close>, the rehydration effect is the only
  caller of \<open>onSettingsChange\<close>: every persisted field that the snapshot's session had
  defined is reproduced, and every other field is as that render had it. When it has none,
  the call that sets the default \<open>voice_profile\<close> comes last and decides: the aggregate is
  that of the first render with \<open>voice_profile\<close> added, whatever was stored. The wizard
  state has its own setters and takes the images, the flags and a preview reference from
  the snapshot; the current stage is not stored.
\<close>

lemma mount_effects_settings:
  "fst (mount_effects setItem_ok fresh fresh_st (Some (persist_payload original st))) k =
     (if truthy (fresh ''voice_profile'')
      then (if k \<in> set persisted_keys \<and> original k \<noteq> None then original k else fresh k)
      else (fresh(''voice_profile'' \<mapsto> JStr ''male-professional'')) k)"
proof -
  obtain calls1 st' where r: "rehydrate fresh fresh_st (Some (persist_payload original st)) = (calls1, st')"
    by (cases "rehydrate fresh fresh_st (Some (persist_payload original st))")
  have c: "calls1 = [fresh ++ spread (get_prop (persist_payload original st) ''settings'')]"
    using rehydrate_persist_calls [of fresh fresh_st original st] r by simp
  show ?thesis
    by (simp add: mount_effects_def r c setState_flush_def updateSettings_def persisted_merge
          del: fun_upd_apply)
qed

lemma mount_effects_without_voice_profile:
  assumes "\<not> truthy (fresh ''voice_profile'')"
  shows "fst (mount_effects setItem_ok fresh fresh_st storage) =
         fresh(''voice_profile'' \<mapsto> JStr ''male-professional'')"
  using assms
  by (simp add: mount_effects_def setState_flush_def updateSettings_def split_def Let_def)

lemma mount_effects_wizard:
  "fst (snd (mount_effects setItem_ok fresh fresh_st (Some (persist_payload original st)))) =
     fresh_st\<lparr>generatedImages := generatedImages st,
              videoPreview := (case videoPreview st of None \<Rightarrow> videoPreview fresh_st | Some v \<Rightarrow> Some v),
              stepCompleted := stepCompleted st\<rparr>"
  using rehydrate_persist_wizard [of fresh fresh_st original st]
  by (simp add: mount_effects_def split_def Let_def)

lemma mount_effects_storage:
  "snd (snd (mount_effects True fresh fresh_st storage)) = Some (persist_payload fresh fresh_st)"
  by (simp add: mount_effects_def split_def persist_def Let_def)

text \<open>
  C9. Writing the snapshot and rehydrating it in a fresh session is to reproduce every
  persisted field. For the images, the completion flags and the preview reference it
  does. For the settings it does not: in a fresh session the aggregate of \<open>App.tsx\<close> has
  no \<open>voice_profile\<close>, so after the rehydration effect has handed the merged aggregate,
  with the saved script, to \<open>onSettingsChange\<close>, the effect that sets the default
  \<open>voice_profile\<close> hands it the aggregate of the first render with \<open>voice_profile\<close>
  added. The next render has the empty script of the fresh session, and the persist effect
  of the first render has replaced the stored snapshot by that of the fresh session.
\<close>

theorem mount_effects_loses_settings:
  "map (\<lambda>m. m ''script'')
     (fst (rehydrate initial_contentSettings initial_wizard
        (persist True
           (initial_contentSettings(''script'' \<mapsto> JStr ''Era uma vez'',
              ''voice_profile'' \<mapsto> JStr ''male-professional''))
           (initial_wizard\<lparr>currentStep := 2,
              stepCompleted := [True, False, False, False, False, False]\<rparr>) None))) =
     [Some (JStr ''Era uma vez'')] \<and>
   fst (mount_effects True initial_contentSettings initial_wizard
        (persist True
           (initial_contentSettings(''script'' \<mapsto> JStr ''Era uma vez'',
              ''voice_profile'' \<mapsto> JStr ''male-professional''))
           (initial_wizard\<lparr>currentStep := 2,
              stepCompleted := [True, False, False, False, False, False]\<rparr>) None)) ''script'' =
     Some (JStr []) \<and>
   stepCompleted (fst (snd (mount_effects True initial_contentSettings initial_wizard
        (persist True
           (initial_contentSettings(''script'' \<mapsto> JStr ''Era uma vez'',
              ''voice_profile'' \<mapsto> JStr ''male-professional''))
           (initial_wizard\<lparr>currentStep := 2,
              stepCompleted := [True, False, False, False, False, False]\<rparr>) None)))) =
     [True, False, False, False, False, False] \<and>
   snd (snd (mount_effects True initial_contentSettings initial_wizard
        (persist True
           (initial_contentSettings(''script'' \<mapsto> JStr ''Era uma vez'',
              ''voice_profile'' \<mapsto> JStr ''male-professional''))
           (initial_wizard\<lparr>currentStep := 2,
              stepCompleted := [True, False, False, False, False, False]\<rparr>) None))) =
     Some (persist_payload initial_contentSettings initial_wizard)"
proof -
  let ?orig = "initial_contentSettings(''script'' \<mapsto> JStr ''Era uma vez'',
                 ''voice_profile'' \<mapsto> JStr ''male-professional'')"
  let ?st = "initial_wizard\<lparr>currentStep := 2,
               stepCompleted := [True, False, False, False, False, False]\<rparr>"
  have p: "persist True ?orig ?st None = Some (persist_payload ?orig ?st)"
    by (simp add: persist_def)
  have fresh: "\<not> truthy (initial_contentSettings ''voice_profile'')"
    by (simp add: initial_contentSettings_examples)
  have "(initial_contentSettings ++ spread (get_prop (persist_payload ?orig ?st) ''settings''))
          ''script'' = Some (JStr ''Era uma vez'')"
    unfolding persisted_merge by (simp add: persisted_keys_examples)
  then have a: "map (\<lambda>m. m ''script'')
      (fst (rehydrate initial_contentSettings initial_wizard (persist True ?orig ?st None))) =
      [Some (JStr ''Era uma vez'')]"
    unfolding p rehydrate_persist_calls by simp
  have b: "fst (mount_effects True initial_contentSettings initial_wizard
      (persist True ?orig ?st None)) ''script'' = Some (JStr [])"
    using mount_effects_without_voice_profile [where fresh = initial_contentSettings
        and setItem_ok = True and fresh_st = initial_wizard
        and storage = "persist True ?orig ?st None", OF fresh]
    by (simp add: initial_contentSettings_examples)
  have c: "stepCompleted (fst (snd (mount_effects True initial_contentSettings initial_wizard
      (persist True ?orig ?st None)))) = [True, False, False, False, False, False]"
    unfolding p mount_effects_wizard by simp
  have d: "snd (snd (mount_effects True initial_contentSettings initial_wizard
      (persist True ?orig ?st None))) = Some (persist_payload initial_contentSettings initial_wizard)"
    by (rule mount_effects_storage)
  show ?thesis using a b c d by (intro conjI)
qed













end
